theory Spec2Isabelle
  imports Main
begin

section \<open>Python string operations\<close>

text \<open>
  Strings are lists of characters. The model agrees with Python's \<open>str\<close> on ASCII
  text; a character outside ASCII is neither whitespace nor a word character here.
\<close>

fun startswith :: "string \<Rightarrow> string \<Rightarrow> bool" where
  "startswith s [] = True"
| "startswith [] (p # ps) = False"
| "startswith (c # cs) (p # ps) = (c = p \<and> startswith cs ps)"

definition endswith :: "string \<Rightarrow> string \<Rightarrow> bool" where
  "endswith s p = startswith (rev s) (rev p)"

text \<open>\<open>sub in s\<close>: \<open>sub\<close> occurs in \<open>s\<close> as a contiguous substring.\<close>

fun contains :: "string \<Rightarrow> string \<Rightarrow> bool" where
  "contains [] sub = (sub = [])"
| "contains (c # cs) sub = (startswith (c # cs) sub \<or> contains cs sub)"

text \<open>\<open>s.split(c)[-1]\<close> for a one-character separator: what follows the last \<open>c\<close>.\<close>

definition after_last :: "char \<Rightarrow> string \<Rightarrow> string" where
  "after_last c s = rev (takeWhile (\<lambda>x. x \<noteq> c) (rev s))"

fun join :: "string \<Rightarrow> string list \<Rightarrow> string" where
  "join sep [] = []"
| "join sep [x] = x"
| "join sep (x # y # ys) = x @ sep @ join sep (y # ys)"

definition isspace :: "char \<Rightarrow> bool" where
  "isspace c = (c \<in> set [CHR 0x09, CHR 0x0A, CHR 0x0B, CHR 0x0C, CHR 0x0D,
                           CHR 0x1C, CHR 0x1D, CHR 0x1E, CHR 0x1F, CHR 0x20])"

definition strip :: "string \<Rightarrow> string" where
  "strip s = dropWhile isspace (rev (dropWhile isspace (rev s)))"








section \<open>Python values\<close>

text \<open>
  A Python value as the store handles it: JSON data (\<open>Dict[str, Any]\<close> of the API, the
  content of a cache file) and references to entities of the ontology, held by IRI.
  Numbers are carried, never inspected.
\<close>

datatype val =
    VNone
  | VBool bool
  | VNum int
  | VStr string
  | VList "val list"
  | VDict "(string \<times> val) list"
  | VEntity string

datatype py_error =
    KeyError string
  | AttributeError string
  | TypeError string
  | ValueError string
  | FileNotFoundError string
  | ReasonerError string

text \<open>Python's \<open>d[k] = v\<close> on a dictionary kept as an association list.\<close>

fun dict_set :: "string \<Rightarrow> 'v \<Rightarrow> (string \<times> 'v) list \<Rightarrow> (string \<times> 'v) list" where
  "dict_set k v [] = [(k, v)]"
| "dict_set k v ((k', v') # kvs) = (if k = k' then (k, v) # kvs else (k', v') # dict_set k v kvs)"

subsection \<open>The text of a value\<close>

function digits :: "nat \<Rightarrow> string" where
  "digits n = (if n < 10 then [char_of (48 + n)] else digits (n div 10) @ [char_of (48 + n mod 10)])"
  by pat_completeness auto
termination
  by (relation "measure id") auto

definition str_int :: "int \<Rightarrow> string" where
  "str_int i = (if i < 0 then ''-'' @ digits (nat (- i)) else digits (nat i))"

text \<open>
  \<open>str(v)\<close>, as an f-string prints a value. A string inside a list or a dictionary is
  printed between single quotes, which is what Python does for a string with no quote,
  backslash or control character.
\<close>

fun py_repr :: "val \<Rightarrow> string" where
  "py_repr VNone = ''None''"
| "py_repr (VBool b) = (if b then ''True'' else ''False'')"
| "py_repr (VNum i) = str_int i"
| "py_repr (VStr s) = [CHR 0x27] @ s @ [CHR 0x27]"
| "py_repr (VList xs) = ''['' @ join '', '' (map py_repr xs) @ '']''"
| "py_repr (VDict kvs) = ''{'' @ join '', '' (map (\<lambda>(k, v). [CHR 0x27] @ k @ [CHR 0x27] @ '': '' @ py_repr v) kvs) @ ''}''"
| "py_repr (VEntity n) = n"

definition py_str :: "val \<Rightarrow> string" where
  "py_str v = (case v of VStr s \<Rightarrow> s | _ \<Rightarrow> py_repr v)"

subsection \<open>Truth, subscripts, iteration\<close>

fun truthy :: "val \<Rightarrow> bool" where
  "truthy VNone = False"
| "truthy (VBool b) = b"
| "truthy (VNum i) = (i \<noteq> 0)"
| "truthy (VStr s) = (s \<noteq> [])"
| "truthy (VList xs) = (xs \<noteq> [])"
| "truthy (VDict kvs) = (kvs \<noteq> [])"
| "truthy (VEntity n) = True"

text \<open>\<open>v[key]\<close> with a string key.\<close>

definition subscript :: "val \<Rightarrow> string \<Rightarrow> py_error + val" where
  "subscript v key =
     (case v of
        VDict kvs \<Rightarrow> (case map_of kvs key of None \<Rightarrow> Inl (KeyError key) | Some x \<Rightarrow> Inr x)
      | _ \<Rightarrow> Inl (TypeError ''subscript''))"

text \<open>\<open>for item in v\<close>: the items of a list, the keys of a dictionary, the characters of a string.\<close>

definition iterate :: "val \<Rightarrow> py_error + val list" where
  "iterate v =
     (case v of
        VList xs \<Rightarrow> Inr xs
      | VDict kvs \<Rightarrow> Inr (map (\<lambda>(k, x). VStr k) kvs)
      | VStr s \<Rightarrow> Inr (map (\<lambda>c. VStr [c]) s)
      | _ \<Rightarrow> Inl (TypeError ''not iterable''))"


section \<open>World update: building the SPARQL UPDATE from a diff\<close>

text \<open>
  An rdflib term. A literal carries its lexical form (what \<open>str\<close> gives), its Python
  value (\<open>term.value\<close>, \<open>toPython()\<close>), its datatype and its language.
\<close>

datatype rdf_term =
    URIRef string
  | Literal string val "string option" "string option"
  | BNode string

type_synonym triple = "rdf_term \<times> rdf_term \<times> rdf_term"

fun str_of :: "rdf_term \<Rightarrow> string" where
  "str_of (URIRef u) = u"
| "str_of (Literal lexical v dt lang) = lexical"
| "str_of (BNode b) = b"

fun format_term :: "rdf_term \<Rightarrow> string" where
  "format_term (URIRef u) = ''<'' @ u @ ''>''"
| "format_term (Literal lexical v (Some dt) lang) = [CHR 0x22] @ py_str v @ [CHR 0x22] @ ''^^<'' @ dt @ ''>''"
| "format_term (Literal lexical v None (Some lang)) = [CHR 0x22] @ py_str v @ [CHR 0x22] @ ''@'' @ lang"
| "format_term (Literal lexical v None None) = [CHR 0x22] @ py_str v @ [CHR 0x22]"
| "format_term (BNode b) = ''_:'' @ b"

text \<open>
  One entry of \<open>relationship_mapping.json\<close>: the inferred relationship and the kind of
  inference (\<open>subproperty\<close>, \<open>inverse_inference\<close>, \<open>property_chain\<close>). The table maps an
  asserted predicate to its entries.
\<close>

record inferred_rel =
  relationship :: string
  inference_type :: string

type_synonym relationship_mapping = "(string \<times> inferred_rel list) list"

definition default_namespace :: string where
  "default_namespace = ''http://www.semanticweb.org/namh_woo/ontologies/2025/9/untitled-ontology-10#''"

definition predicate_uri :: "string \<Rightarrow> string \<Rightarrow> string" where
  "predicate_uri namespace p =
     (if \<not> startswith p ''http'' then namespace @ ''#'' @ p else p)"

definition node_uri :: "string \<Rightarrow> string \<Rightarrow> string" where
  "node_uri namespace x =
     (if \<not> startswith x ''http''
      then (if \<not> startswith x '':'' then namespace @ ''#'' @ x else namespace @ x)
      else x)"

definition inferred_triple :: "string \<Rightarrow> string \<Rightarrow> string \<Rightarrow> inferred_rel \<Rightarrow> string \<times> string \<times> string" where
  "inferred_triple namespace subject object r =
     (if inference_type r = ''inverse_inference''
      then (node_uri namespace object, predicate_uri namespace (relationship r), node_uri namespace subject)
      else (node_uri namespace subject, predicate_uri namespace (relationship r), node_uri namespace object))"

definition get_inferred_relationships_for_delete ::
  "string \<Rightarrow> string \<Rightarrow> string \<Rightarrow> relationship_mapping \<Rightarrow> string \<Rightarrow> (string \<times> string \<times> string) list" where
  "get_inferred_relationships_for_delete asserted_predicate subject object mapping namespace =
     (case map_of mapping asserted_predicate of
        None \<Rightarrow> []
      | Some inferred_rels \<Rightarrow> map (inferred_triple namespace subject object) inferred_rels)"

definition asserted_predicates :: "string list" where
  "asserted_predicates =
     [''robotIsInSpace'', ''artifactIsInSpace'', ''isInsideOf'', ''isOntopOf'', ''carries'', ''spaceIsInStorey'']"

definition predicate_local_of :: "string \<Rightarrow> string option" where
  "predicate_local_of predicate_str =
     (if CHR ''#'' \<in> set predicate_str then Some (after_last CHR ''#'' predicate_str)
      else if endswith predicate_str ''robotIsInSpace'' \<or> endswith predicate_str ''artifactIsInSpace''
      then Some (if CHR ''/'' \<in> set predicate_str then after_last CHR ''/'' predicate_str else predicate_str)
      else None)"

definition local_name_of :: "string \<Rightarrow> string" where
  "local_name_of x =
     (if CHR ''#'' \<in> set x then after_last CHR ''#'' x
      else if startswith x '':'' then drop 1 x
      else if CHR ''/'' \<in> set x then after_last CHR ''/'' x else x)"

text \<open>
  The state of the DELETE loops: the clause lines in the order appended, and the set of
  triple keys already written.
\<close>

type_synonym delete_state = "string list \<times> (string \<times> string \<times> string) set"

definition add_removed :: "delete_state \<Rightarrow> triple \<Rightarrow> delete_state" where
  "add_removed st t =
     (case (st, t) of ((delete_clauses, delete_triples_set), (s, p, o')) \<Rightarrow>
        let triple_key = (str_of s, str_of p, str_of o') in
        if triple_key \<notin> delete_triples_set
        then (delete_clauses @ [''    '' @ format_term s @ '' '' @ format_term p @ '' '' @ format_term o' @ '' .''],
              insert triple_key delete_triples_set)
        else (delete_clauses, delete_triples_set))"

definition add_inferred :: "delete_state \<Rightarrow> string \<times> string \<times> string \<Rightarrow> delete_state" where
  "add_inferred st k =
     (case (st, k) of ((delete_clauses, delete_triples_set), (inf_s, inf_p, inf_o)) \<Rightarrow>
        if (inf_s, inf_p, inf_o) \<notin> delete_triples_set
        then (delete_clauses @ [''    <'' @ inf_s @ ''> <'' @ inf_p @ ''> <'' @ inf_o @ ''> .''],
              insert (inf_s, inf_p, inf_o) delete_triples_set)
        else (delete_clauses, delete_triples_set))"

definition inferred_for :: "relationship_mapping \<Rightarrow> string \<Rightarrow> triple \<Rightarrow> (string \<times> string \<times> string) list" where
  "inferred_for mapping namespace t =
     (case t of (s, p, o') \<Rightarrow>
        (case predicate_local_of (str_of p) of
           None \<Rightarrow> []
         | Some predicate_local \<Rightarrow>
             if predicate_local \<in> set asserted_predicates
             then get_inferred_relationships_for_delete predicate_local
                    (local_name_of (str_of s)) (local_name_of (str_of o')) mapping namespace
             else []))"

definition add_inferred_of :: "relationship_mapping \<Rightarrow> string \<Rightarrow> delete_state \<Rightarrow> triple \<Rightarrow> delete_state" where
  "add_inferred_of mapping namespace st t = foldl add_inferred st (inferred_for mapping namespace t)"

text \<open>
  \<open>removed_triples\<close> is a Python set; the list gives the order in which the two loops
  happen to visit it. \<open>mapping\<close> is \<open>None\<close> when no project root is given or the table
  cannot be loaded.
\<close>

definition delete_part :: "triple list \<Rightarrow> relationship_mapping option \<Rightarrow> string \<Rightarrow> delete_state" where
  "delete_part removed_triples mapping namespace =
     (let st = foldl add_removed ([], {}) removed_triples in
      case mapping of
        None \<Rightarrow> st
      | Some m \<Rightarrow> foldl (add_inferred_of m namespace) st removed_triples)"

definition insert_clauses_of :: "triple list \<Rightarrow> string list" where
  "insert_clauses_of added_triples =
     map (\<lambda>(s, p, o'). ''    '' @ format_term s @ '' '' @ format_term p @ '' '' @ format_term o' @ '' .'') added_triples"

definition query_parts :: "triple list \<Rightarrow> triple list \<Rightarrow> relationship_mapping option \<Rightarrow> string \<Rightarrow> string list" where
  "query_parts added_triples removed_triples mapping namespace =
     (let delete_clauses = fst (delete_part removed_triples mapping namespace);
          insert_clauses = insert_clauses_of added_triples in
      (if delete_clauses \<noteq> [] then [''DELETE {''] @ delete_clauses @ [''}''] else [])
      @ (if insert_clauses \<noteq> []
         then [if delete_clauses \<noteq> [] then ''INSERT {'' else ''INSERT DATA {''] @ insert_clauses @ [''}'']
         else [])
      @ (if delete_clauses \<noteq> [] \<and> insert_clauses \<noteq> [] then [''WHERE { }''] else []))"

definition generate_sparql_update :: "triple list \<Rightarrow> triple list \<Rightarrow> relationship_mapping option \<Rightarrow> string \<Rightarrow> string" where
  "generate_sparql_update added_triples removed_triples mapping namespace =
     join [CHR 0x0A] (query_parts added_triples removed_triples mapping namespace)"

subsection \<open>The inferred relationships reach the DELETE set\<close>























section \<open>The ontology store and its projection\<close>

subsection \<open>The owlready2 world\<close>

datatype kind = OwlClass | OwlObjectProperty | OwlDataProperty | OwlIndividual

text \<open>
  An entity of the ontology: a class, a property or an individual, known by its name; its
  IRI is the ontology's base IRI followed by the name. \<open>ent_is_a\<close> names its classes
  (an individual) or its parents (a class, a property); \<open>ent_domain\<close> and \<open>ent_range\<close>
  are those of a property; \<open>ent_attrs\<close> are the property values assigned with
  \<open>setattr\<close>, a reference to an entity being \<open>VEntity\<close> of its name.
\<close>

record entity =
  ent_name :: string
  ent_kind :: kind
  ent_is_a :: "string list"
  ent_domain :: "string list"
  ent_range :: "string list"
  ent_attrs :: "(string \<times> val) list"

text \<open>The ontology: its base IRI and its entities in the order of their creation.\<close>

record onto =
  base_iri :: string
  entities :: "entity list"

definition iri_of :: "onto \<Rightarrow> entity \<Rightarrow> string" where
  "iri_of w e = base_iri w @ ent_name e"

definition classes :: "onto \<Rightarrow> entity list" where
  "classes w = filter (\<lambda>e. ent_kind e = OwlClass) (entities w)"

definition object_properties :: "onto \<Rightarrow> entity list" where
  "object_properties w = filter (\<lambda>e. ent_kind e = OwlObjectProperty) (entities w)"

definition data_properties :: "onto \<Rightarrow> entity list" where
  "data_properties w = filter (\<lambda>e. ent_kind e = OwlDataProperty) (entities w)"

definition individuals :: "onto \<Rightarrow> entity list" where
  "individuals w = filter (\<lambda>e. ent_kind e = OwlIndividual) (entities w)"

text \<open>
  \<open>ontology.search_one(iri="*x")\<close>: the first entity whose IRI ends with \<open>x\<close>
  (the star is a wildcard; \<open>x\<close> itself is taken to hold none).
\<close>

definition search_one :: "onto \<Rightarrow> string \<Rightarrow> entity option" where
  "search_one w x = find (\<lambda>e. endswith (iri_of w e) x) (entities w)"





subsection \<open>Setting the properties of an individual\<close>






subsection \<open>The Neo4j projection\<close>

text \<open>
  A property graph: nodes with labels and properties under an internal identifier, and
  directed, labelled edges between identifiers.
\<close>

record node =
  n_labels :: "string list"
  n_props :: "(string \<times> val) list"

record graph =
  nodes :: "(nat \<times> node) list"
  edges :: "(nat \<times> string \<times> nat) list"

definition empty_graph :: graph where
  "empty_graph = \<lparr>nodes = [], edges = []\<rparr>"

definition has_labels :: "string list \<Rightarrow> node \<Rightarrow> bool" where
  "has_labels ls n = (set ls \<subseteq> set (n_labels n))"

text \<open>The pattern \<open>{id: $id}\<close>; a null parameter matches nothing.\<close>

definition has_id :: "val \<Rightarrow> node \<Rightarrow> bool" where
  "has_id i n = (i \<noteq> VNone \<and> map_of (n_props n) ''id'' = Some i)"

text \<open>\<open>MATCH (n:L1:L2 {id: $id})\<close>: the identifiers of the nodes that match.\<close>

definition pattern :: "string list \<Rightarrow> val \<Rightarrow> node \<Rightarrow> bool" where
  "pattern ls i n = (has_labels ls n \<and> has_id i n)"

definition match_nodes :: "string list \<Rightarrow> val \<Rightarrow> graph \<Rightarrow> nat list" where
  "match_nodes ls i g = map fst (filter (\<lambda>(k, n). pattern ls i n) (nodes g))"

text \<open>A new internal identifier: one the graph does not use, at a node or at an edge.\<close>

definition used_ids :: "graph \<Rightarrow> nat list" where
  "used_ids g = map fst (nodes g) @ map fst (edges g) @ map (\<lambda>(a, l, b). b) (edges g)"

definition fresh :: "graph \<Rightarrow> nat" where
  "fresh g = Suc (foldr max (used_ids g) 0)"

text \<open>\<open>MERGE (n:L1:L2 {id: $id})\<close>: create the node unless one matches.\<close>

definition merge_node :: "string list \<Rightarrow> val \<Rightarrow> graph \<Rightarrow> graph" where
  "merge_node ls i g =
     (if match_nodes ls i g = []
      then g\<lparr>nodes := nodes g @ [(fresh g, \<lparr>n_labels = ls, n_props = [(''id'', i)]\<rparr>)]\<rparr>
      else g)"

text \<open>\<open>MATCH (n:L1:L2 {id: $id}) SET n.key = v\<close>: on each of the nodes that match.\<close>

definition set_prop :: "string list \<Rightarrow> val \<Rightarrow> string \<Rightarrow> val \<Rightarrow> graph \<Rightarrow> graph" where
  "set_prop ls i key v g =
     g\<lparr>nodes := map (\<lambda>(k, n). if pattern ls i n then (k, n\<lparr>n_props := dict_set key v (n_props n)\<rparr>) else (k, n))
                    (nodes g)\<rparr>"

text \<open>\<open>MERGE (a)-[:l]->(b)\<close> for every pair of matched nodes.\<close>

definition merge_edge :: "string \<Rightarrow> graph \<Rightarrow> nat \<times> nat \<Rightarrow> graph" where
  "merge_edge l g ab =
     (case ab of (a, b) \<Rightarrow> if (a, l, b) \<in> set (edges g) then g else g\<lparr>edges := edges g @ [(a, l, b)]\<rparr>)"

definition merge_edges :: "nat list \<Rightarrow> string \<Rightarrow> nat list \<Rightarrow> graph \<Rightarrow> graph" where
  "merge_edges as l bs g = foldl (merge_edge l) g (List.product as bs)"

text \<open>\<open>MATCH (n) WHERE P DETACH DELETE n\<close>: the nodes go, and every edge at one of them.\<close>

definition detach_delete :: "(node \<Rightarrow> bool) \<Rightarrow> graph \<Rightarrow> graph" where
  "detach_delete P g =
     (let gone = map fst (filter (\<lambda>(k, n). P n) (nodes g)) in
      \<lparr>nodes = filter (\<lambda>(k, n). \<not> P n) (nodes g),
       edges = filter (\<lambda>(a, l, b). a \<notin> set gone \<and> b \<notin> set gone) (edges g)\<rparr>)"

definition is_individual :: "node \<Rightarrow> bool" where
  "is_individual n = (''Individual'' \<in> set (n_labels n))"

subsection \<open>Initialising the projection with the schema\<close>

definition init_class :: "onto \<Rightarrow> graph \<Rightarrow> entity \<Rightarrow> graph" where
  "init_class w g cls =
     (let c = VStr (ent_name cls);
          g1 = merge_node [''Class''] c g
      in set_prop [''Class''] c ''uri'' (VStr (iri_of w cls))
           (set_prop [''Class''] c ''name'' (VStr (ent_name cls)) g1))"

definition init_subclass :: "graph \<Rightarrow> entity \<Rightarrow> graph" where
  "init_subclass g cls =
     foldl (\<lambda>g parent. if parent \<noteq> ''Thing''
                        then merge_edges (match_nodes [''Class''] (VStr (ent_name cls)) g) ''SUBCLASS_OF''
                               (match_nodes [''Class''] (VStr parent) g) g
                        else g)
           g (ent_is_a cls)"

definition init_property :: "onto \<Rightarrow> string \<Rightarrow> graph \<Rightarrow> entity \<Rightarrow> graph" where
  "init_property w ty g prop =
     (let p = VStr (ent_name prop);
          g1 = merge_node [''Property''] p g
      in set_prop [''Property''] p ''type'' (VStr ty)
           (set_prop [''Property''] p ''uri'' (VStr (iri_of w prop))
              (set_prop [''Property''] p ''name'' (VStr (ent_name prop)) g1)))"

definition init_domain_range :: "graph \<Rightarrow> entity \<Rightarrow> graph" where
  "init_domain_range g prop =
     (let g1 = foldl (\<lambda>g d. merge_edges (match_nodes [''Property''] (VStr (ent_name prop)) g) ''HAS_DOMAIN''
                               (match_nodes [''Class''] (VStr d) g) g)
                     g (ent_domain prop)
      in foldl (\<lambda>g r. merge_edges (match_nodes [''Property''] (VStr (ent_name prop)) g) ''HAS_RANGE''
                          (match_nodes [''Class''] (VStr r) g) g)
               g1 (ent_range prop))"

definition init_subproperty :: "graph \<Rightarrow> entity \<Rightarrow> graph" where
  "init_subproperty g prop =
     foldl (\<lambda>g parent.
              if parent \<noteq> ''ObjectProperty''
                 \<and> parent \<notin> set [''SymmetricProperty'', ''TransitiveProperty'', ''topObjectProperty'']
              then merge_edges (match_nodes [''Property''] (VStr (ent_name prop)) g) ''SUBPROPERTY_OF''
                     (match_nodes [''Property''] (VStr parent) g) g
              else g)
           g (ent_is_a prop)"

definition initialize_neo4j_schema :: "onto \<Rightarrow> graph \<Rightarrow> graph" where
  "initialize_neo4j_schema w g =
     (let g0 = detach_delete (\<lambda>n. True) g;
          g1 = foldl (init_class w) g0 (classes w);
          g2 = foldl init_subclass g1 (classes w);
          g3 = foldl (init_property w ''ObjectProperty'') g2 (object_properties w);
          g4 = foldl (init_property w ''DataProperty'') g3 (data_properties w);
          g5 = foldl init_domain_range g4 (object_properties w)
      in foldl init_subproperty g5 (object_properties w))"


subsection \<open>Embeddings\<close>

record embedding_manager =
  category_model :: string
  category_dimensions :: nat
  description_model :: string
  description_dimensions :: nat

definition recommended_dimensions :: "string \<Rightarrow> nat" where
  "recommended_dimensions m =
     (if m = ''text-embedding-3-small'' then 512
      else if m = ''text-embedding-3-large'' then 1024
      else if m = ''text-embedding-ada-002'' then 1536
      else 512)"

text \<open>A file of the cache directory: absent, not JSON, or its JSON content.\<close>

datatype cache_file = Missing | Malformed | Content val

text \<open>
  What the embedding step reads from outside: the \<open>embedding\<close> section of the
  configuration, the API key and environment identifier of the process environment, the files,
  and the embedding service (text, model, dimensions to a vector, or an error).
\<close>

record embedding_env =
  cfg_generate :: bool
  cfg_category_model :: string
  cfg_category_dimensions :: "nat option"
  cfg_description_model :: string
  cfg_description_dimensions :: "nat option"
  env_api_key :: bool
  env_id :: "string option"
  env_files :: "string \<Rightarrow> cache_file"
  env_service :: "string \<Rightarrow> string \<Rightarrow> nat \<Rightarrow> py_error + val"

definition new_embedding_manager :: "embedding_env \<Rightarrow> py_error + embedding_manager" where
  "new_embedding_manager env =
     (if \<not> env_api_key env then Inl (ValueError ''OpenAI API key not provided'')
      else Inr \<lparr>category_model = cfg_category_model env,
                category_dimensions = (case cfg_category_dimensions env of
                                         None \<Rightarrow> recommended_dimensions (cfg_category_model env)
                                       | Some d \<Rightarrow> d),
                description_model = cfg_description_model env,
                description_dimensions = (case cfg_description_dimensions env of
                                            None \<Rightarrow> recommended_dimensions (cfg_description_model env)
                                          | Some d \<Rightarrow> d)\<rparr>)"

text \<open>\<open>d.get(key)\<close>: \<open>None\<close> when the key is absent.\<close>

definition dict_get :: "(string \<times> val) list \<Rightarrow> string \<Rightarrow> val" where
  "dict_get kvs key = (case map_of kvs key of None \<Rightarrow> VNone | Some v \<Rightarrow> v)"

fun load_items :: "val list \<Rightarrow> nat \<Rightarrow> graph \<Rightarrow> (py_error + nat) \<times> graph" where
  "load_items [] count g = (Inr count, g)"
| "load_items (item # rest) count g =
     (case item of
        VDict kvs \<Rightarrow>
          if dict_get kvs ''description_embedding'' = VNone then load_items rest count g
          else
            (case map_of kvs ''id'' of
               None \<Rightarrow> (Inl (KeyError ''id''), g)
             | Some i \<Rightarrow>
                 load_items rest
                   (if match_nodes [''Individual''] i g \<noteq> [] then count + 1 else count)
                   (set_prop [''Individual''] i ''description_embedding''
                      (dict_get kvs ''description_embedding'') g))
      | _ \<Rightarrow> (Inl (AttributeError ''get''), g))"

definition load_embeddings_from_file ::
  "embedding_manager \<Rightarrow> graph \<Rightarrow> string \<Rightarrow> (string \<Rightarrow> cache_file) \<Rightarrow> (py_error + nat) \<times> graph" where
  "load_embeddings_from_file self neo4j_session input_path fs =
     (case fs input_path of
        Missing \<Rightarrow> (Inl (FileNotFoundError input_path), neo4j_session)
      | Malformed \<Rightarrow> (Inl (ValueError ''JSONDecodeError''), neo4j_session)
      | Content data \<Rightarrow>
          (case (case data of
                   VDict kvs \<Rightarrow>
                     (case (map_of kvs ''metadata'', map_of kvs ''embeddings'') of
                        (Some metadata, Some embeddings_list) \<Rightarrow>
                          (case subscript metadata ''description_model'' of
                             Inl e \<Rightarrow> Inl e
                           | Inr m \<Rightarrow>
                               (case subscript metadata ''description_dimensions'' of
                                  Inl e \<Rightarrow> Inl e
                                | Inr d \<Rightarrow> Inr embeddings_list))
                      | _ \<Rightarrow> Inl (ValueError ''Invalid embedding cache format''))
                 | VList xs \<Rightarrow> Inr (VList xs)
                 | _ \<Rightarrow> Inl (ValueError ''Invalid embedding cache format'')) of
             Inl e \<Rightarrow> (Inl e, neo4j_session)
           | Inr embeddings_list \<Rightarrow>
               (case iterate embeddings_list of
                  Inl e \<Rightarrow> (Inl e, neo4j_session)
                | Inr its \<Rightarrow> load_items its 0 neo4j_session)))"


subsection \<open>Reasoning and the full sync\<close>

text \<open>
  What the reasoner and owlready2 derive from the schema, which is not part of the
  sources: the HermiT run (the ontology with the inferred facts, or an error), the
  classes of an individual with their superclasses (\<open>INDIRECT_is_a\<close>, by name), and the
  value of \<open>INDIRECT_p\<close> for a property \<open>p\<close>.
\<close>

record reasoning =
  hermit :: "onto \<Rightarrow> py_error + onto"
  indirect_is_a :: "onto \<Rightarrow> entity \<Rightarrow> string list"
  indirect_values :: "onto \<Rightarrow> entity \<Rightarrow> string \<Rightarrow> val"

record manager =
  ontology :: onto
  driver :: graph
  current_data_type :: "string option"

definition entity_getattr :: "entity \<Rightarrow> string \<Rightarrow> val option" where
  "entity_getattr e p = map_of (ent_attrs e) p"

definition class_labels :: "reasoning \<Rightarrow> onto \<Rightarrow> entity \<Rightarrow> string list" where
  "class_labels rz w e = filter (\<lambda>c. c \<noteq> [] \<and> c \<noteq> ''Thing'') (indirect_is_a rz w e)"

definition data_props_of :: "onto \<Rightarrow> entity \<Rightarrow> (string \<times> val) list" where
  "data_props_of w e =
     concat (map (\<lambda>prop.
        let prop_values = (case entity_getattr e (ent_name prop) of
                             None \<Rightarrow> []
                           | Some (VList xs) \<Rightarrow> xs
                           | Some VNone \<Rightarrow> []
                           | Some v \<Rightarrow> [v])
        in (case prop_values of
              [] \<Rightarrow> []
            | [x] \<Rightarrow> [(ent_name prop, x)]
            | _ \<Rightarrow> [(ent_name prop, VList prop_values)]))
        (data_properties w))"

definition create_individual_node :: "reasoning \<Rightarrow> onto \<Rightarrow> graph \<Rightarrow> entity \<Rightarrow> graph" where
  "create_individual_node rz w g individual =
     (let labels = ''Individual'' # class_labels rz w individual;
          i = VStr (ent_name individual);
          g1 = merge_node labels i g;
          g2 = set_prop labels i ''uri'' (VStr (iri_of w individual)) g1;
          g3 = foldl (\<lambda>g cls. merge_edges (match_nodes [''Individual''] i g) ''INSTANCE_OF''
                                  (match_nodes [''Class''] (VStr cls) g) g)
                     g2 (class_labels rz w individual)
      in foldl (\<lambda>g (key, value). set_prop [''Individual''] i key value g)
               g3 (data_props_of w individual))"

definition object_values :: "reasoning \<Rightarrow> onto \<Rightarrow> entity \<Rightarrow> string \<Rightarrow> val list" where
  "object_values rz w individual p =
     (case indirect_values rz w individual p of
        VList xs \<Rightarrow> xs
      | v \<Rightarrow> if truthy v then [v] else [])"

definition create_relationship :: "string \<Rightarrow> string \<Rightarrow> graph \<times> nat \<Rightarrow> val \<Rightarrow> graph \<times> nat" where
  "create_relationship subj_id p st v =
     (case (st, v) of
        ((g, relationships_count), VEntity obj_id) \<Rightarrow>
          (merge_edges (match_nodes [''Individual''] (VStr subj_id) g) p
             (match_nodes [''Individual''] (VStr obj_id) g) g,
           relationships_count + 1)
      | ((g, relationships_count), _) \<Rightarrow> (g, relationships_count))"

definition create_relationships :: "reasoning \<Rightarrow> onto \<Rightarrow> graph \<times> nat \<Rightarrow> entity \<Rightarrow> graph \<times> nat" where
  "create_relationships rz w st individual =
     foldl (\<lambda>st prop. foldl (create_relationship (ent_name individual) (ent_name prop)) st
                         (object_values rz w individual (ent_name prop)))
           st (object_properties w)"

text \<open>The text to embed: \<open>v[0]\<close> of a list, the value itself otherwise, when it is true.\<close>

definition text_attr :: "entity \<Rightarrow> string \<Rightarrow> val option" where
  "text_attr e p =
     (case entity_getattr e p of
        None \<Rightarrow> None
      | Some v \<Rightarrow> if truthy v then Some (case v of VList (x # xs) \<Rightarrow> x | _ \<Rightarrow> v) else None)"

definition generate_description_embedding :: "embedding_manager \<Rightarrow> embedding_env \<Rightarrow> val \<Rightarrow> py_error + val" where
  "generate_description_embedding self env t =
     (if \<not> truthy t then Inl (ValueError ''Text cannot be empty'')
      else case t of
        VStr s \<Rightarrow> if strip s = [] then Inl (ValueError ''Text cannot be empty'')
                  else env_service env s (description_model self) (description_dimensions self)
      | _ \<Rightarrow> Inl (AttributeError ''strip''))"

definition embed_individual ::
  "embedding_manager \<Rightarrow> embedding_env \<Rightarrow> reasoning \<Rightarrow> onto \<Rightarrow> entity \<Rightarrow> graph \<Rightarrow> py_error + graph" where
  "embed_individual self env rz w individual g =
     (let class_names = set (filter (\<lambda>c. c \<noteq> []) (indirect_is_a rz w individual)) in
      if ''Space'' \<notin> class_names \<and> ''Artifact'' \<notin> class_names then Inr g
      else
        let category = text_attr individual ''category'';
            description = text_attr individual ''description'';
            category_text = (case category of None \<Rightarrow> None | Some c \<Rightarrow> if truthy c then Some c else None);
            description_text = (case description of
                                  None \<Rightarrow> category_text
                                | Some d \<Rightarrow> if truthy d then Some d else category_text)
        in (case description_text of
              None \<Rightarrow> Inr g
            | Some t \<Rightarrow>
                (case generate_description_embedding self env t of
                   Inl e \<Rightarrow> Inl e
                 | Inr description_embedding \<Rightarrow>
                     Inr (set_prop [''Individual''] (VStr (ent_name individual))
                            ''description_embedding'' description_embedding g))))"

text \<open>The loop over the individuals stops at the third failure.\<close>

fun embed_all ::
  "embedding_manager \<Rightarrow> embedding_env \<Rightarrow> reasoning \<Rightarrow> onto \<Rightarrow> entity list \<Rightarrow> nat \<Rightarrow> graph \<Rightarrow> graph" where
  "embed_all self env rz w [] failed_count g = g"
| "embed_all self env rz w (individual # rest) failed_count g =
     (case embed_individual self env rz w individual g of
        Inr g' \<Rightarrow> embed_all self env rz w rest failed_count g'
      | Inl e \<Rightarrow> if failed_count + 1 \<ge> 3 then g
                 else embed_all self env rz w rest (failed_count + 1) g)"

definition cache_path :: "embedding_env \<Rightarrow> string option \<Rightarrow> string" where
  "cache_path env cdt =
     (if cdt = Some ''static'' then
        (case env_id env of Some i \<Rightarrow> ''data/envs/'' @ i @ ''/static_embeddings.json''
                          | None \<Rightarrow> ''data/static_embeddings.json'')
      else if cdt = Some ''dynamic'' then
        (case env_id env of Some i \<Rightarrow> ''data/envs/'' @ i @ ''/dynamic_embeddings.json''
                          | None \<Rightarrow> ''data/dynamic_embeddings.json'')
      else
        (case env_id env of Some i \<Rightarrow> ''data/envs/'' @ i @ ''/dynamic_embeddings.json''
                          | None \<Rightarrow> ''data/static_embeddings.json''))"

text \<open>
  The embedding step of the sync. Whatever it raises is caught and reported as a warning,
  so only its writes to the projection remain. The cache files written when embeddings
  are generated are not part of the state modelled.
\<close>

definition handle_embeddings :: "embedding_env \<Rightarrow> reasoning \<Rightarrow> string option \<Rightarrow> onto \<Rightarrow> graph \<Rightarrow> graph" where
  "handle_embeddings env rz cdt w g =
     (case new_embedding_manager env of
        Inl e \<Rightarrow> g
      | Inr embedding_manager \<Rightarrow>
          if cfg_generate env
          then embed_all embedding_manager env rz w (individuals w) 0 g
          else snd (load_embeddings_from_file embedding_manager g (cache_path env cdt) (env_files env)))"

text \<open>
  \<open>sync_to_neo4j\<close>: the status is the error caught, or the numbers of individuals and of
  relationships.
\<close>

definition sync_to_neo4j ::
  "reasoning \<Rightarrow> embedding_env \<Rightarrow> bool \<Rightarrow> manager \<Rightarrow> (py_error + nat \<times> nat) \<times> manager" where
  "sync_to_neo4j rz env skip_reasoning self =
     (case (if \<not> skip_reasoning then hermit rz (ontology self) else Inr (ontology self)) of
        Inl e \<Rightarrow> (Inl e, self)
      | Inr w \<Rightarrow>
          let g0 = detach_delete is_individual (driver self);
              g1 = foldl (create_individual_node rz w) g0 (individuals w);
              (g2, relationships_count) = foldl (create_relationships rz w) (g1, 0) (individuals w);
              g3 = handle_embeddings env rz (current_data_type self) w g2
          in (Inr (length (individuals w), relationships_count), self\<lparr>ontology := w, driver := g3\<rparr>))"

subsection \<open>The schema projection survives a full sync\<close>

definition individual_ids :: "graph \<Rightarrow> nat list" where
  "individual_ids g = map fst (filter (\<lambda>(k, n). is_individual n) (nodes g))"

text \<open>The nodes that are not labelled \<open>Individual\<close>, and the edges at none of the others.\<close>

definition schema_nodes :: "graph \<Rightarrow> (nat \<times> node) list" where
  "schema_nodes g = filter (\<lambda>(k, n). \<not> is_individual n) (nodes g)"

definition schema_edges :: "graph \<Rightarrow> (nat \<times> string \<times> nat) list" where
  "schema_edges g =
     filter (\<lambda>(a, l, b). a \<notin> set (individual_ids g) \<and> b \<notin> set (individual_ids g)) (edges g)"

definition same_schema :: "graph \<Rightarrow> graph \<Rightarrow> bool" where
  "same_schema g g' = (schema_nodes g' = schema_nodes g \<and> schema_edges g' = schema_edges g)"

lemma same_schema_refl [simp]: "same_schema g g"
  by (simp add: same_schema_def)

lemma same_schema_trans: "same_schema g g' \<Longrightarrow> same_schema g' g'' \<Longrightarrow> same_schema g g''"
  by (simp add: same_schema_def)

lemma detach_delete_individuals: "same_schema g (detach_delete is_individual g)"
proof -
  have ids: "individual_ids (detach_delete is_individual g) = []"
    by (auto simp: individual_ids_def detach_delete_def Let_def filter_empty_conv)
  have "schema_nodes (detach_delete is_individual g) = schema_nodes g"
    by (simp add: schema_nodes_def detach_delete_def Let_def)
  moreover have "schema_edges (detach_delete is_individual g) = schema_edges g"
    unfolding schema_edges_def ids
    by (simp add: detach_delete_def Let_def individual_ids_def)
  ultimately show ?thesis by (simp add: same_schema_def)
qed

lemma foldr_max_ge: "x \<in> set xs \<Longrightarrow> x \<le> foldr max xs (0::nat)"
  by (induction xs) (auto simp: max_def)

lemma fresh_not_used: "fresh g \<notin> set (used_ids g)"
proof
  assume "fresh g \<in> set (used_ids g)"
  then have "fresh g \<le> foldr max (used_ids g) 0" by (rule foldr_max_ge)
  then show False by (simp add: fresh_def)
qed

lemma fresh_not_at_edge: "(a, l, b) \<in> set (edges g) \<Longrightarrow> a \<noteq> fresh g \<and> b \<noteq> fresh g"
  using fresh_not_used [of g] by (force simp: used_ids_def)

lemma merge_node_individual:
  assumes "''Individual'' \<in> set ls"
  shows "same_schema g (merge_node ls i g)"
proof (cases "match_nodes ls i g = []")
  case False
  then show ?thesis by (simp add: merge_node_def)
next
  case True
  let ?g = "g\<lparr>nodes := nodes g @ [(fresh g, \<lparr>n_labels = ls, n_props = [(''id'', i)]\<rparr>)]\<rparr>"
  have ids: "individual_ids ?g = individual_ids g @ [fresh g]"
    using assms by (simp add: individual_ids_def is_individual_def)
  have "schema_nodes ?g = schema_nodes g"
    using assms by (simp add: schema_nodes_def is_individual_def)
  moreover have "schema_edges ?g = schema_edges g"
  proof -
    have e: "edges ?g = edges g" by simp
    have "(case x of (a, l, b) \<Rightarrow> a \<notin> set (individual_ids g @ [fresh g]) \<and> b \<notin> set (individual_ids g @ [fresh g]))
          = (case x of (a, l, b) \<Rightarrow> a \<notin> set (individual_ids g) \<and> b \<notin> set (individual_ids g))"
      if "x \<in> set (edges g)" for x
    proof (cases x)
      case (fields a l b)
      then show ?thesis using that fresh_not_at_edge [of a l b g] by auto
    qed
    then show ?thesis unfolding schema_edges_def ids e by (rule filter_cong [OF refl])
  qed
  ultimately show ?thesis using True by (simp add: merge_node_def same_schema_def)
qed

lemma upd_keeps_individual_ids:
  assumes "\<And>n. is_individual (f n) = is_individual n"
  shows "map fst (filter (\<lambda>(k, n). is_individual n) (map (\<lambda>(k, n). if Q n then (k, f n) else (k, n)) xs))
         = map fst (filter (\<lambda>(k, n). is_individual n) xs)"
proof (induction xs)
  case Nil
  show ?case by simp
next
  case (Cons x xs)
  obtain k n where x: "x = (k, n)" by (cases x)
  show ?case using Cons.IH assms [of n] by (simp add: x)
qed

lemma upd_keeps_schema_nodes:
  assumes "\<And>n. is_individual (f n) = is_individual n" "\<And>n. Q n \<Longrightarrow> is_individual n"
  shows "filter (\<lambda>(k, n). \<not> is_individual n) (map (\<lambda>(k, n). if Q n then (k, f n) else (k, n)) xs)
         = filter (\<lambda>(k, n). \<not> is_individual n) xs"
proof (induction xs)
  case Nil
  show ?case by simp
next
  case (Cons x xs)
  obtain k n where x: "x = (k, n)" by (cases x)
  show ?case using Cons.IH assms(1) [of n] assms(2) [of n] by (auto simp: x)
qed

lemma set_prop_individual:
  assumes "''Individual'' \<in> set ls"
  shows "same_schema g (set_prop ls i key v g)"
proof -
  have p: "pattern ls i n \<Longrightarrow> is_individual n" for n
    using assms by (auto simp: pattern_def has_labels_def is_individual_def)
  have f: "is_individual (n\<lparr>n_props := dict_set key v (n_props n)\<rparr>) = is_individual n" for n
    by (simp add: is_individual_def)
  have ids: "individual_ids (set_prop ls i key v g) = individual_ids g"
    unfolding individual_ids_def set_prop_def
    using upd_keeps_individual_ids [of "\<lambda>n. n\<lparr>n_props := dict_set key v (n_props n)\<rparr>", OF f]
    by simp
  have "schema_nodes (set_prop ls i key v g) = schema_nodes g"
    unfolding schema_nodes_def set_prop_def
    using upd_keeps_schema_nodes [of "\<lambda>n. n\<lparr>n_props := dict_set key v (n_props n)\<rparr>" "pattern ls i", OF f p]
    by simp
  moreover have "schema_edges (set_prop ls i key v g) = schema_edges g"
    unfolding schema_edges_def ids by (simp add: set_prop_def)
  ultimately show ?thesis by (simp add: same_schema_def)
qed

lemma match_individual_ids:
  "''Individual'' \<in> set ls \<Longrightarrow> set (match_nodes ls i g) \<subseteq> set (individual_ids g)"
  by (auto simp: match_nodes_def individual_ids_def pattern_def has_labels_def is_individual_def)

lemma merge_edge_individual:
  assumes "fst ab \<in> set (individual_ids g) \<or> snd ab \<in> set (individual_ids g)"
  shows "same_schema g (merge_edge l g ab) \<and> nodes (merge_edge l g ab) = nodes g"
proof (cases ab)
  case (Pair a b)
  show ?thesis
  proof (cases "(a, l, b) \<in> set (edges g)")
    case True
    then show ?thesis by (simp add: Pair merge_edge_def)
  next
    case False
    let ?g = "g\<lparr>edges := edges g @ [(a, l, b)]\<rparr>"
    have m: "merge_edge l g ab = ?g" using False by (simp add: Pair merge_edge_def)
    have i: "individual_ids ?g = individual_ids g" by (simp add: individual_ids_def)
    have "schema_edges ?g = schema_edges g"
      unfolding schema_edges_def i using assms by (simp add: Pair)
    moreover have "schema_nodes ?g = schema_nodes g" by (simp add: schema_nodes_def)
    ultimately show ?thesis by (simp add: m same_schema_def)
  qed
qed

lemma foldl_merge_edge_individual:
  assumes "\<forall>ab \<in> set ps. fst ab \<in> set (individual_ids g) \<or> snd ab \<in> set (individual_ids g)"
  shows "same_schema g (foldl (merge_edge l) g ps) \<and> nodes (foldl (merge_edge l) g ps) = nodes g"
  using assms
proof (induction ps arbitrary: g)
  case Nil
  then show ?case by simp
next
  case (Cons ab ps)
  have s1: "same_schema g (merge_edge l g ab)" and n1: "nodes (merge_edge l g ab) = nodes g"
    using Cons.prems merge_edge_individual [of ab g l] by auto
  have i1: "individual_ids (merge_edge l g ab) = individual_ids g"
    using n1 by (simp add: individual_ids_def)
  have "\<forall>ab \<in> set ps. fst ab \<in> set (individual_ids (merge_edge l g ab0)) \<or> snd ab \<in> set (individual_ids (merge_edge l g ab0))"
    if "ab0 = ab" for ab0
    using Cons.prems that by (simp add: i1)
  then have "same_schema (merge_edge l g ab) (foldl (merge_edge l) (merge_edge l g ab) ps)
        \<and> nodes (foldl (merge_edge l) (merge_edge l g ab) ps) = nodes (merge_edge l g ab)"
    by (intro Cons.IH) simp
  then show ?case using s1 n1 same_schema_trans [OF s1] by simp
qed

lemma merge_edges_individual:
  assumes "set as \<subseteq> set (individual_ids g)"
  shows "same_schema g (merge_edges as l bs g)"
  using foldl_merge_edge_individual [of "List.product as bs" g l] assms
  by (auto simp: merge_edges_def)


lemma foldl_same_schema:
  assumes "\<And>g x. same_schema g (f g x)"
  shows "same_schema g (foldl f g xs)"
proof (induction xs arbitrary: g)
  case Nil
  show ?case by simp
next
  case (Cons x xs)
  show ?case using same_schema_trans [OF assms [of g x] Cons.IH [of "f g x"]] by simp
qed

lemma create_individual_node_schema: "same_schema g (create_individual_node rz w g individual)"
proof -
  let ?ls = "''Individual'' # class_labels rz w individual"
  let ?i = "VStr (ent_name individual)"
  let ?g1 = "merge_node ?ls ?i g"
  let ?g2 = "set_prop ?ls ?i ''uri'' (VStr (iri_of w individual)) ?g1"
  let ?f3 = "\<lambda>g cls. merge_edges (match_nodes [''Individual''] ?i g) ''INSTANCE_OF''
                        (match_nodes [''Class''] (VStr cls) g) g"
  let ?g3 = "foldl ?f3 ?g2 (class_labels rz w individual)"
  let ?f4 = "\<lambda>g (key, value). set_prop [''Individual''] ?i key value g"
  have 1: "same_schema g ?g1" by (rule merge_node_individual) simp
  have 2: "same_schema ?g1 ?g2" by (rule set_prop_individual) simp
  have 3: "same_schema ?g2 ?g3"
    by (rule foldl_same_schema) (rule merge_edges_individual, rule match_individual_ids, simp)
  have "same_schema g' (?f4 g' kv)" for g' kv
    by (cases kv) (simp add: set_prop_individual)
  then have 4: "same_schema ?g3 (foldl ?f4 ?g3 (data_props_of w individual))"
    by (rule foldl_same_schema)
  have "create_individual_node rz w g individual = foldl ?f4 ?g3 (data_props_of w individual)"
    by (simp add: create_individual_node_def Let_def)
  then show ?thesis
    using same_schema_trans [OF same_schema_trans [OF same_schema_trans [OF 1 2] 3] 4] by simp
qed

lemma create_relationship_schema: "same_schema (fst st) (fst (create_relationship subj_id p st v))"
proof (cases st)
  case (Pair g c)
  show ?thesis
    by (cases v) (simp_all add: Pair create_relationship_def merge_edges_individual match_individual_ids)
qed

lemma foldl_fst_same_schema:
  assumes "\<And>st x. same_schema (fst st) (fst (f st x))"
  shows "same_schema (fst st) (fst (foldl f st xs))"
proof (induction xs arbitrary: st)
  case Nil
  show ?case by simp
next
  case (Cons x xs)
  show ?case using same_schema_trans [OF assms [of st x] Cons.IH [of "f st x"]] by simp
qed

lemma create_relationships_schema: "same_schema (fst st) (fst (create_relationships rz w st individual))"
  unfolding create_relationships_def
  by (rule foldl_fst_same_schema) (rule foldl_fst_same_schema, rule create_relationship_schema)

lemma load_items_schema: "same_schema g (snd (load_items its count g))"
proof (induction its arbitrary: count g)
  case Nil
  show ?case by simp
next
  case (Cons item rest)
  show ?case
  proof (cases item)
    case (VDict kvs)
    show ?thesis
    proof (cases "dict_get kvs ''description_embedding'' = VNone")
      case True
      then show ?thesis using Cons.IH by (simp add: VDict)
    next
      case False
      show ?thesis
      proof (cases "map_of kvs ''id''")
        case None
        then show ?thesis using False by (simp add: VDict)
      next
        case (Some i)
        let ?g' = "set_prop [''Individual''] i ''description_embedding'' (dict_get kvs ''description_embedding'') g"
        have s: "same_schema g ?g'" by (rule set_prop_individual) simp
        show ?thesis
          using False Some same_schema_trans [OF s Cons.IH [where g = ?g']] by (simp add: VDict)
      qed
    qed
  qed simp_all
qed

lemma load_embeddings_schema:
  "same_schema g (snd (load_embeddings_from_file self g input_path fs))"
  by (auto simp: load_embeddings_from_file_def load_items_schema
      split: cache_file.splits sum.splits val.splits option.splits prod.splits)

lemma embed_individual_schema:
  "embed_individual self env rz w individual g = Inr g' \<Longrightarrow> same_schema g g'"
  by (auto simp: embed_individual_def Let_def set_prop_individual
      split: if_splits option.splits sum.splits)

lemma embed_all_schema: "same_schema g (embed_all self env rz w inds failed_count g)"
proof (induction inds arbitrary: failed_count g)
  case Nil
  show ?case by simp
next
  case (Cons individual rest)
  show ?case
  proof (cases "embed_individual self env rz w individual g")
    case (Inl e)
    then show ?thesis using Cons.IH by simp
  next
    case (Inr g')
    then show ?thesis
      using same_schema_trans [OF embed_individual_schema [OF Inr] Cons.IH [where g = g' and failed_count = failed_count]] by simp
  qed
qed

lemma handle_embeddings_schema: "same_schema g (handle_embeddings env rz cdt w g)"
  by (simp add: handle_embeddings_def embed_all_schema load_embeddings_schema split: sum.splits)

lemma sync_same_schema: "same_schema (driver self) (driver (snd (sync_to_neo4j rz env skip_reasoning self)))"
proof (cases "if \<not> skip_reasoning then hermit rz (ontology self) else Inr (ontology self)")
  case (Inl e)
  then show ?thesis by (simp add: sync_to_neo4j_def)
next
  case (Inr w)
  let ?g0 = "detach_delete is_individual (driver self)"
  let ?g1 = "foldl (create_individual_node rz w) ?g0 (individuals w)"
  let ?st = "foldl (create_relationships rz w) (?g1, 0) (individuals w)"
  let ?g3 = "handle_embeddings env rz (current_data_type self) w (fst ?st)"
  have 0: "same_schema (driver self) ?g0" by (rule detach_delete_individuals)
  have 1: "same_schema ?g0 ?g1"
    by (rule foldl_same_schema) (rule create_individual_node_schema)
  have "same_schema (fst (?g1, 0::nat)) (fst ?st)"
    by (rule foldl_fst_same_schema) (rule create_relationships_schema)
  then have 2: "same_schema ?g1 (fst ?st)" by simp
  have 3: "same_schema (fst ?st) ?g3" by (rule handle_embeddings_schema)
  have "driver (snd (sync_to_neo4j rz env skip_reasoning self)) = ?g3"
    using Inr by (simp add: sync_to_neo4j_def Let_def split: prod.splits)
  then show ?thesis
    using same_schema_trans [OF same_schema_trans [OF same_schema_trans [OF 0 1] 2] 3] by simp
qed


text \<open>What the initialisation creates has no node labelled \<open>Individual\<close>.\<close>

lemma individual_ids_merge_node:
  "''Individual'' \<notin> set ls \<Longrightarrow> individual_ids (merge_node ls i g) = individual_ids g"
  by (simp add: merge_node_def individual_ids_def is_individual_def)

lemma individual_ids_set_prop: "individual_ids (set_prop ls i key v g) = individual_ids g"
proof -
  have f: "is_individual (n\<lparr>n_props := dict_set key v (n_props n)\<rparr>) = is_individual n" for n
    by (simp add: is_individual_def)
  show ?thesis
    unfolding individual_ids_def set_prop_def
    using upd_keeps_individual_ids [of "\<lambda>n. n\<lparr>n_props := dict_set key v (n_props n)\<rparr>", OF f]
    by simp
qed

lemma nodes_merge_edge: "nodes (merge_edge l g ab) = nodes g"
  by (cases ab) (simp add: merge_edge_def)

lemma nodes_merge_edges: "nodes (merge_edges as l bs g) = nodes g"
proof -
  have "nodes (foldl (merge_edge l) g ps) = nodes g" for ps
    by (induction ps arbitrary: g) (simp_all add: nodes_merge_edge)
  then show ?thesis by (simp add: merge_edges_def)
qed

lemma individual_ids_merge_edges: "individual_ids (merge_edges as l bs g) = individual_ids g"
  by (simp add: individual_ids_def nodes_merge_edges)

lemma foldl_keeps_individual_ids:
  assumes "\<And>g x. individual_ids (f g x) = individual_ids g"
  shows "individual_ids (foldl f g xs) = individual_ids g"
  by (induction xs arbitrary: g) (simp_all add: assms)

lemma individual_ids_init_class: "individual_ids (init_class w g cls) = individual_ids g"
  by (simp add: init_class_def Let_def individual_ids_set_prop individual_ids_merge_node)

lemma individual_ids_init_property: "individual_ids (init_property w ty g prop) = individual_ids g"
  by (simp add: init_property_def Let_def individual_ids_set_prop individual_ids_merge_node)

lemma individual_ids_init_subclass: "individual_ids (init_subclass g cls) = individual_ids g"
  unfolding init_subclass_def
  by (rule foldl_keeps_individual_ids) (simp add: individual_ids_merge_edges)

lemma individual_ids_init_subproperty: "individual_ids (init_subproperty g prop) = individual_ids g"
  unfolding init_subproperty_def
  by (rule foldl_keeps_individual_ids) (simp add: individual_ids_merge_edges)

lemma individual_ids_init_domain_range: "individual_ids (init_domain_range g prop) = individual_ids g"
proof -
  have 1: "individual_ids (foldl (\<lambda>g d. merge_edges (match_nodes [''Property''] (VStr (ent_name prop)) g) ''HAS_DOMAIN''
                               (match_nodes [''Class''] (VStr d) g) g) g (ent_domain prop)) = individual_ids g"
    by (rule foldl_keeps_individual_ids) (simp add: individual_ids_merge_edges)
  show ?thesis
    unfolding init_domain_range_def Let_def
    by (subst foldl_keeps_individual_ids) (simp_all add: individual_ids_merge_edges 1)
qed

lemma init_no_individuals: "individual_ids (initialize_neo4j_schema w g) = []"
proof -
  have 0: "individual_ids (detach_delete (\<lambda>n. True) g) = []"
    by (simp add: individual_ids_def detach_delete_def)
  show ?thesis
    unfolding initialize_neo4j_schema_def Let_def
    by (simp add: foldl_keeps_individual_ids individual_ids_init_subproperty
        individual_ids_init_domain_range individual_ids_init_property
        individual_ids_init_subclass individual_ids_init_class 0)
qed

lemma no_individuals_all_schema:
  assumes "individual_ids g = []"
  shows "schema_nodes g = nodes g \<and> schema_edges g = edges g"
proof -
  have "\<not> is_individual n" if "(k, n) \<in> set (nodes g)" for k n
    using assms that by (auto simp: individual_ids_def filter_empty_conv)
  then have "schema_nodes g = nodes g"
    by (auto simp: schema_nodes_def filter_id_conv)
  moreover have "schema_edges g = edges g"
    by (auto simp: schema_edges_def assms filter_id_conv)
  ultimately show ?thesis by simp
qed

text \<open>The schema projection proper: the class and property nodes and their four relationships.\<close>

definition class_property_nodes :: "graph \<Rightarrow> (nat \<times> node) list" where
  "class_property_nodes g =
     filter (\<lambda>(k, n). ''Class'' \<in> set (n_labels n) \<or> ''Property'' \<in> set (n_labels n)) (schema_nodes g)"

definition schema_relationships :: "graph \<Rightarrow> (nat \<times> string \<times> nat) list" where
  "schema_relationships g =
     filter (\<lambda>(a, l, b). l \<in> set [''SUBCLASS_OF'', ''SUBPROPERTY_OF'', ''HAS_DOMAIN'', ''HAS_RANGE''])
       (schema_edges g)"

text \<open>
  Claim C9. A full sync deletes and recreates only nodes labelled \<open>Individual\<close> and
  the edges at them: the other nodes, and the edges at none of the \<open>Individual\<close> nodes,
  are the same before and after, whatever the reasoner, the embedding step and the
  outcome. What the initialisation creates is all of this kind, so the class and property
  nodes and their \<open>SUBCLASS_OF\<close>, \<open>SUBPROPERTY_OF\<close>, \<open>HAS_DOMAIN\<close> and \<open>HAS_RANGE\<close>
  edges are left as they were.
\<close>

theorem sync_keeps_schema_projection:
  "schema_nodes (driver (snd (sync_to_neo4j rz env skip_reasoning self))) = schema_nodes (driver self)
   \<and> schema_edges (driver (snd (sync_to_neo4j rz env skip_reasoning self))) = schema_edges (driver self)
   \<and> class_property_nodes (driver (snd (sync_to_neo4j rz env skip_reasoning self)))
       = class_property_nodes (driver self)
   \<and> schema_relationships (driver (snd (sync_to_neo4j rz env skip_reasoning self)))
       = schema_relationships (driver self)
   \<and> schema_nodes (initialize_neo4j_schema w g) = nodes (initialize_neo4j_schema w g)
   \<and> schema_edges (initialize_neo4j_schema w g) = edges (initialize_neo4j_schema w g)"
  using sync_same_schema [of self rz env skip_reasoning]
    no_individuals_all_schema [OF init_no_individuals [of w g]]
  by (simp add: same_schema_def class_property_nodes_def schema_relationships_def)

subsection \<open>Loading embeddings from the cache\<close>

text \<open>A reasoner that infers nothing: the indirect classes and values are the asserted ones.\<close>

definition asserted_only :: reasoning where
  "asserted_only =
     \<lparr>hermit = (\<lambda>w. Inr w),
      indirect_is_a = (\<lambda>w e. ent_is_a e),
      indirect_values = (\<lambda>w e p. case entity_getattr e p of None \<Rightarrow> VList [] | Some v \<Rightarrow> v)\<rparr>"

text \<open>
  A configuration for \<open>text-embedding-3-small\<close> at 512 dimensions, and a cache written
  with \<open>text-embedding-ada-002\<close> at 1536 dimensions.
\<close>

definition small_manager :: embedding_manager where
  "small_manager =
     \<lparr>category_model = ''text-embedding-3-small'', category_dimensions = 512,
      description_model = ''text-embedding-3-small'', description_dimensions = 512\<rparr>"

definition ada_cache :: val where
  "ada_cache =
     VDict [(''metadata'', VDict [(''description_model'', VStr ''text-embedding-ada-002''),
                                  (''description_dimensions'', VNum 1536)]),
            (''embeddings'', VList [VDict [(''id'', VStr ''chair_1''),
                                           (''description_embedding'', VList [VNum 1, VNum 2])]])]"

definition chair_graph :: graph where
  "chair_graph =
     \<lparr>nodes = [(0, \<lparr>n_labels = [''Individual'', ''Artifact''], n_props = [(''id'', VStr ''chair_1'')]\<rparr>)],
      edges = []\<rparr>"

definition no_generate_env :: embedding_env where
  "no_generate_env =
     \<lparr>cfg_generate = False,
      cfg_category_model = ''text-embedding-3-small'', cfg_category_dimensions = None,
      cfg_description_model = ''text-embedding-3-small'', cfg_description_dimensions = None,
      env_api_key = True, env_id = None,
      env_files = (\<lambda>path. Missing),
      env_service = (\<lambda>t m d. Inl (ValueError ''no service''))\<rparr>"

definition chair_manager :: manager where
  "chair_manager =
     \<lparr>ontology = \<lparr>base_iri = ''http://x.org/onto#'',
                   entities = [\<lparr>ent_name = ''Artifact'', ent_kind = OwlClass, ent_is_a = [''Thing''],
                                ent_domain = [], ent_range = [], ent_attrs = []\<rparr>,
                               \<lparr>ent_name = ''chair_1'', ent_kind = OwlIndividual, ent_is_a = [''Artifact''],
                                ent_domain = [], ent_range = [], ent_attrs = []\<rparr>]\<rparr>,
      driver = empty_graph,
      current_data_type = Some ''dynamic''\<rparr>"

text \<open>
  Claim C8, as stated, fails: with generation off, a cache whose metadata names another
  model and another dimensionality than the configuration is loaded without any error,
  and a missing cache file does not fail the sync.
\<close>

theorem cache_mismatch_counterexample:
  "description_model small_manager = ''text-embedding-3-small''
   \<and> description_dimensions small_manager = 512
   \<and> dict_get [(''description_model'', VStr ''text-embedding-ada-002''),
                (''description_dimensions'', VNum 1536)] ''description_model''
       = VStr ''text-embedding-ada-002''
   \<and> fst (load_embeddings_from_file small_manager chair_graph ''dynamic_embeddings.json''
            (\<lambda>path. Content ada_cache)) = Inr 1
   \<and> cfg_generate no_generate_env = False
   \<and> env_files no_generate_env (cache_path no_generate_env (Some ''dynamic'')) = Missing
   \<and> fst (sync_to_neo4j asserted_only no_generate_env False chair_manager) = Inr (1, 0)"
  by code_simp

text \<open>
  Claim C8, amended. With generation off the loader raises \<open>FileNotFoundError\<close> when the
  cache file is missing and touches nothing; it reads the cached metadata only to log it
  and never compares it with the configured model or dimensionality, so what it returns
  does not depend on them; and the sync reports an error only when the reasoner fails:
  whatever the embedding step raises is caught, and the sync still returns success.
\<close>

theorem cache_metadata_not_compared:
  "load_embeddings_from_file self g input_path fs = load_embeddings_from_file self' g input_path fs
   \<and> (fs input_path = Missing \<longrightarrow>
        load_embeddings_from_file self g input_path fs = (Inl (FileNotFoundError input_path), g))
   \<and> ((\<exists>e. fst (sync_to_neo4j rz env skip_reasoning m) = Inl e)
        \<longleftrightarrow> (\<not> skip_reasoning \<and> (\<exists>e. hermit rz (ontology m) = Inl e)))"
proof -
  have 1: "load_embeddings_from_file self g input_path fs = load_embeddings_from_file self' g input_path fs"
    by (simp add: load_embeddings_from_file_def)
  have 2: "fs input_path = Missing \<longrightarrow>
        load_embeddings_from_file self g input_path fs = (Inl (FileNotFoundError input_path), g)"
    by (simp add: load_embeddings_from_file_def)
  have 3: "(\<exists>e. fst (sync_to_neo4j rz env skip_reasoning m) = Inl e)
        \<longleftrightarrow> (\<not> skip_reasoning \<and> (\<exists>e. hermit rz (ontology m) = Inl e))"
    by (cases "hermit rz (ontology m)")
       (auto simp: sync_to_neo4j_def Let_def split: prod.splits)
  from 1 2 3 show ?thesis by blast
qed

theorem cache_metadata_not_compared_witness:
  "load_embeddings_from_file small_manager chair_graph ''dynamic_embeddings.json'' (\<lambda>path. Missing)
     = (Inl (FileNotFoundError ''dynamic_embeddings.json''), chair_graph)"
proof -
  have "(\<lambda>path::string. Missing) ''dynamic_embeddings.json'' = Missing" by simp
  with cache_metadata_not_compared [of small_manager chair_graph "''dynamic_embeddings.json''" "\<lambda>path. Missing"]
  show ?thesis by blast
qed

section \<open>The operations of the ontology manager\<close>

text \<open>
  The status dictionary an operation returns: success with its payload, or an error with
  its message, which is one of the messages the operation writes itself or the text of
  an exception it caught.
\<close>

datatype failure =
    ClassNotFound string
  | AlreadyExists string
  | NotFound string
  | TtlFileNotFound string
  | Raised py_error

datatype 'a status = Success 'a | Error failure

subsection \<open>Adding, updating and deleting one individual\<close>




text \<open>\<open>destroy_entity\<close>: the entity goes, and every reference to it.\<close>

fun without_entity :: "string \<Rightarrow> val \<Rightarrow> val" where
  "without_entity n (VList xs) = VList (filter (\<lambda>x. x \<noteq> VEntity n) xs)"
| "without_entity n v = v"

definition destroy_entity :: "string \<Rightarrow> onto \<Rightarrow> onto" where
  "destroy_entity n w =
     w\<lparr>entities := map (\<lambda>e. e\<lparr>ent_attrs := filter (\<lambda>(k, v). v \<noteq> VEntity n)
                                                (map (\<lambda>(k, v). (k, without_entity n v)) (ent_attrs e))\<rparr>)
                       (filter (\<lambda>e. ent_name e \<noteq> n) (entities w))\<rparr>"

definition delete_individual ::
  "reasoning \<Rightarrow> embedding_env \<Rightarrow> string \<Rightarrow> manager \<Rightarrow> string status \<times> manager" where
  "delete_individual rz env individual_id self =
     (case search_one (ontology self) individual_id of
        None \<Rightarrow> (Error (NotFound individual_id), self)
      | Some individual \<Rightarrow>
          (Success individual_id,
           snd (sync_to_neo4j rz env False
                  (self\<lparr>ontology := destroy_entity (ent_name individual) (ontology self)\<rparr>))))"


subsection \<open>An error status and the asserted model\<close>


















subsection \<open>Adding a batch of individuals\<close>





subsection \<open>Loading individuals from a Turtle file\<close>













subsection \<open>Subjects without a type are skipped\<close>
















section \<open>The SPARQL update endpoint\<close>

subsection \<open>Parsing by lines\<close>





subsection \<open>Applying the two sections to the ontology\<close>




subsection \<open>The edges of the robot at its old location\<close>




subsection \<open>The endpoint\<close>












section \<open>The edges of the projection and the reasoned values\<close>

lemma foldl_invariant:
  assumes "P st" "\<And>st x. x \<in> set xs \<Longrightarrow> P st \<Longrightarrow> P (f st x)"
  shows "P (foldl f st xs)"
  using assms
proof (induction xs arbitrary: st)
  case Nil
  then show ?case by simp
next
  case (Cons x xs)
  have "P (f st x)" using Cons.prems by simp
  then show ?case using Cons.IH [of "f st x"] Cons.prems(2) by simp
qed

subsection \<open>Internal identifiers stay distinct\<close>

definition distinct_ids :: "graph \<Rightarrow> bool" where
  "distinct_ids g = distinct (map fst (nodes g))"






lemma distinct_ids_merge_edges: "distinct_ids g \<Longrightarrow> distinct_ids (merge_edges as l bs g)"
  by (simp add: distinct_ids_def nodes_merge_edges)



lemma distinct_ids_create_relationship:
  "distinct_ids (fst st) \<Longrightarrow> distinct_ids (fst (create_relationship subj_id p st v))"
  by (cases st; cases v) (simp_all add: create_relationship_def distinct_ids_merge_edges)

lemma nodes_create_relationship: "nodes (fst (create_relationship subj_id p st v)) = nodes (fst st)"
  by (cases st; cases v) (simp_all add: create_relationship_def nodes_merge_edges)

lemma nodes_create_relationships: "nodes (fst (create_relationships rz w st individual)) = nodes (fst st)"
  unfolding create_relationships_def
  apply (rule foldl_invariant [where P = "\<lambda>s. nodes (fst s) = nodes (fst st)"])
   apply simp
  apply (rule foldl_invariant [where P = "\<lambda>s. nodes (fst s) = nodes (fst st)"])
   apply simp
  apply (simp add: nodes_create_relationship)
  done

subsection \<open>Setting a property other than the identifier keeps every match\<close>






subsection \<open>Where the edges at an individual come from\<close>
























subsection \<open>After a full sync\<close>












section \<open>World update: the versioned Turtle files\<close>

subsection \<open>Rewriting the line of the robot\<close>

text \<open>
  \<open>s.replace(old, new)\<close>: every occurrence, left to right, none overlapping; with an empty
  \<open>old\<close>, \<open>new\<close> goes before every character and at the end.
\<close>

function replace :: "string \<Rightarrow> string \<Rightarrow> string \<Rightarrow> string" where
  "replace old new [] = (if old = [] then new else [])"
| "replace old new (c # cs) =
     (if old = [] then new @ c # replace old new cs
      else if startswith (c # cs) old then new @ replace old new (drop (length old) (c # cs))
      else c # replace old new cs)"
  by pat_completeness auto
termination
  by (relation "measure (\<lambda>(old, new, s). length s)") auto

text \<open>
  The first loop: the index of the line to rewrite. \<open>prev\<close> is \<open>lines[max(0, i-1)]\<close>,
  \<open>robot_block_start\<close> is \<open>-1\<close> outside a robot block.
\<close>

fun find_robot_line :: "string \<Rightarrow> string \<Rightarrow> string list \<Rightarrow> nat \<Rightarrow> string \<Rightarrow> int \<Rightarrow> nat option" where
  "find_robot_line robot_id from_location [] i prev robot_block_start = None"
| "find_robot_line robot_id from_location (line # rest) i prev robot_block_start =
     (let start = (if contains line ('':'' @ robot_id)
                      \<and> (contains line ''rdf:type'' \<or> contains prev ''rdf:type'')
                   then int i else robot_block_start)
      in if start \<ge> 0 \<and> contains line '':robotIsInSpace''
         then (if contains line ('':'' @ from_location) then Some i
               else if contains line '';'' \<and> int i > start + 10
               then find_robot_line robot_id from_location rest (i + 1) line (- 1)
               else find_robot_line robot_id from_location rest (i + 1) line start)
         else find_robot_line robot_id from_location rest (i + 1) line start)"

text \<open>The alternative search: the first line with \<open>:robotIsInSpace\<close> and the old location.\<close>

fun find_any_line :: "string \<Rightarrow> string list \<Rightarrow> nat \<Rightarrow> nat option" where
  "find_any_line from_location [] i = None"
| "find_any_line from_location (line # rest) i =
     (if contains line '':robotIsInSpace'' \<and> contains line ('':'' @ from_location) then Some i
      else find_any_line from_location rest (i + 1))"

definition line_to_update :: "string list \<Rightarrow> string \<Rightarrow> string \<Rightarrow> nat option" where
  "line_to_update lines robot_id from_location =
     (case find_robot_line robot_id from_location lines 0 (case lines of [] \<Rightarrow> [] | l # ls \<Rightarrow> l) (- 1) of
        Some i \<Rightarrow> Some i
      | None \<Rightarrow> find_any_line from_location lines 0)"

text \<open>
  \<open>save_incremental_update_to_ttl\<close>: the original file is its lines, or nothing when the
  path does not exist; the result is the lines written to the new file, or nothing when
  the function returns \<open>False\<close>.
\<close>

definition save_incremental_update_to_ttl ::
  "string list option \<Rightarrow> string \<Rightarrow> string \<Rightarrow> string \<Rightarrow> string list option" where
  "save_incremental_update_to_ttl original robot_id from_location to_location =
     (case original of
        None \<Rightarrow> None
      | Some lines \<Rightarrow>
          (case line_to_update lines robot_id from_location of
             None \<Rightarrow> None
           | Some i \<Rightarrow>
               Some (lines[i := replace ('':'' @ from_location) ('':'' @ to_location) (lines ! i)])))"

subsection \<open>The difference of two files as RDF graphs\<close>





text \<open>The rewriter changes one line, one that holds \<open>:robotIsInSpace\<close> and the old location.\<close>

lemma find_robot_line_found:
  "find_robot_line robot_id from_location ls i prev start = Some j
   \<Longrightarrow> i \<le> j \<and> j < i + length ls
       \<and> contains (ls ! (j - i)) '':robotIsInSpace'' \<and> contains (ls ! (j - i)) ('':'' @ from_location)"
proof (induction ls arbitrary: i prev start)
  case Nil
  then show ?case by simp
next
  case (Cons line rest)
  let ?start = "if contains line ('':'' @ robot_id) \<and> (contains line ''rdf:type'' \<or> contains prev ''rdf:type'')
                then int i else start"
  show ?case
  proof (cases "?start \<ge> 0 \<and> contains line '':robotIsInSpace'' \<and> contains line ('':'' @ from_location)")
    case True
    then have "j = i" using Cons.prems by (simp add: Let_def)
    then show ?thesis using True by simp
  next
    case False
    then obtain st where "find_robot_line robot_id from_location rest (i + 1) line st = Some j"
      using Cons.prems by (auto simp: Let_def split: if_splits)
    from Cons.IH [OF this] show ?thesis by (auto simp: nth_Cons')
  qed
qed

lemma find_any_line_found:
  "find_any_line from_location ls i = Some j
   \<Longrightarrow> i \<le> j \<and> j < i + length ls
       \<and> contains (ls ! (j - i)) '':robotIsInSpace'' \<and> contains (ls ! (j - i)) ('':'' @ from_location)"
proof (induction ls arbitrary: i)
  case Nil
  then show ?case by simp
next
  case (Cons line rest)
  show ?case
  proof (cases "contains line '':robotIsInSpace'' \<and> contains line ('':'' @ from_location)")
    case True
    then have "j = i" using Cons.prems by simp
    then show ?thesis using True by simp
  next
    case False
    then have "find_any_line from_location rest (i + 1) = Some j" using Cons.prems by auto
    from Cons.IH [OF this] show ?thesis by (auto simp: nth_Cons')
  qed
qed

lemma save_changes_one_line:
  assumes "save_incremental_update_to_ttl (Some lines) robot_id from_location to_location = Some updated"
  shows "\<exists>i < length lines.
           updated = lines[i := replace ('':'' @ from_location) ('':'' @ to_location) (lines ! i)]
           \<and> contains (lines ! i) '':robotIsInSpace'' \<and> contains (lines ! i) ('':'' @ from_location)"
proof -
  obtain i where i: "line_to_update lines robot_id from_location = Some i"
    and u: "updated = lines[i := replace ('':'' @ from_location) ('':'' @ to_location) (lines ! i)]"
    using assms by (auto simp: save_incremental_update_to_ttl_def split: option.splits)
  have "i < length lines \<and> contains (lines ! i) '':robotIsInSpace'' \<and> contains (lines ! i) ('':'' @ from_location)"
    using i find_robot_line_found [of robot_id from_location lines 0 _ _ i]
      find_any_line_found [of from_location lines 0 i]
    by (auto simp: line_to_update_def split: option.splits)
  then show ?thesis using u by blast
qed


end
